theory Spec2Isabelle
  imports Main
begin

section \<open>TypeMapping.hpp: the compile-time type table\<close>

text \<open>
  A template parameter pack \<open>Ts...\<close> is a list of type names; \<open>std::is_same_v\<close> is
  equality of names. The table is evaluated by the compiler, so a lookup that the
  compiler rejects (the \<open>throw\<close> inside a constant expression of the last row, a row
  without \<open>next\<close>, an empty pack) has no value: \<open>None\<close>.
\<close>

text \<open>
  \<open>type_table_row<Index, T, Ts...>::index_of<U>()\<close>: the primary template compares with
  its own type and otherwise asks \<open>next\<close>, whose index is \<open>index + 1\<close>; the
  specialisation for the last row compares and otherwise throws.
\<close>

fun type_table_row_index_of :: "nat \<Rightarrow> 'ty list \<Rightarrow> 'ty \<Rightarrow> nat option" where
  "type_table_row_index_of Index [] U = None"
| "type_table_row_index_of Index [T] U = (if U = T then Some Index else None)"
| "type_table_row_index_of Index (T # Ts) U =
     (if U = T then Some Index else type_table_row_index_of (Index + 1) Ts U)"

text \<open>
  \<open>row_indexer<Table, idx>::indexed_type\<close>: the specialisation for \<open>idx = 0\<close> is the
  row's own type, the primary template moves to \<open>Table::next\<close> with \<open>idx - 1\<close>.
\<close>

fun row_indexer :: "'ty list \<Rightarrow> nat \<Rightarrow> 'ty option" where
  "row_indexer (T # Ts) 0 = Some T"
| "row_indexer (T # Ts) (Suc idx) = row_indexer Ts idx"
| "row_indexer [] idx = None"

definition type_table_size :: "'ty list \<Rightarrow> nat" where
  "type_table_size Ts = length Ts"

definition index_of :: "'ty list \<Rightarrow> 'ty \<Rightarrow> nat option" where
  "index_of Ts T = type_table_row_index_of 0 Ts T"

definition type_of :: "'ty list \<Rightarrow> nat \<Rightarrow> 'ty option" where
  "type_of Ts idx = row_indexer Ts idx"


section \<open>Storage.hpp: Storage and ObjectPointer\<close>

text \<open>
  What a \<open>std::list\<close> iterator stores: the address of a list node, or the address of
  the sentinel that is part of the list object itself (every \<open>end()\<close> of the list at
  address \<open>c\<close> is \<open>Sentinel c\<close>), or nothing (a value-initialised iterator).
\<close>

datatype node_ptr = Null | Node nat | Sentinel nat

text \<open>
  The four iterator types that \<open>Storage\<close> re-exports from its base class are distinct
  types. A reverse iterator is kept as its base position, as \<open>std::reverse_iterator\<close>
  does: \<open>rbegin()\<close> is built from \<open>end()\<close> and \<open>rend()\<close> from \<open>begin()\<close>.
\<close>

datatype list_iterator =
    iterator node_ptr
  | const_iterator node_ptr
  | reverse_iterator node_ptr
  | const_reverse_iterator node_ptr

text \<open>
  \<open>Storage<T>\<close> is a \<open>std::pmr::list<T>\<close>: the object's own address and the linked
  nodes in list order, each with the address the allocator gave it.
\<close>

record 'a Storage =
  self :: nat
  nodes :: "(nat \<times> 'a) list"

record ObjectPointer =
  it :: node_ptr
  cont :: "nat option"

text \<open>
  What a call can end in instead of a result: a program the compiler rejects, a call
  outside the contract of the standard library, the two exceptions the source throws or
  catches, and \<open>std::terminate\<close>.
\<close>

datatype error =
    ill_formed
  | undefined_behaviour
  | bad_variant_access
  | runtime_error string
  | terminate

definition Storage_new :: "nat \<Rightarrow> 'a Storage" where
  "Storage_new c = \<lparr>self = c, nodes = []\<rparr>"

text \<open>
  The links of the list at address \<open>c\<close>: the first node of a chain (the sentinel when the
  chain is empty), the value stored in the node at an address, and the node after it.
  An address that is no node of the list has neither.
\<close>

fun first_ptr :: "nat \<Rightarrow> (nat \<times> 'a) list \<Rightarrow> node_ptr" where
  "first_ptr c [] = Sentinel c"
| "first_ptr c ((a, v) # ns) = Node a"

fun node_value :: "(nat \<times> 'a) list \<Rightarrow> nat \<Rightarrow> 'a option" where
  "node_value [] a = None"
| "node_value ((b, v) # ns) a = (if a = b then Some v else node_value ns a)"

fun node_next :: "nat \<Rightarrow> (nat \<times> 'a) list \<Rightarrow> nat \<Rightarrow> node_ptr option" where
  "node_next c [] a = None"
| "node_next c ((b, v) # ns) a = (if a = b then Some (first_ptr c ns) else node_next c ns a)"

definition begin_ptr :: "'a Storage \<Rightarrow> node_ptr" where
  "begin_ptr s = first_ptr (self s) (nodes s)"

definition end_ptr :: "'a Storage \<Rightarrow> node_ptr" where
  "end_ptr s = Sentinel (self s)"

definition Storage_begin :: "'a Storage \<Rightarrow> list_iterator" where
  "Storage_begin s = iterator (begin_ptr s)"

definition Storage_end :: "'a Storage \<Rightarrow> list_iterator" where
  "Storage_end s = iterator (end_ptr s)"

definition Storage_cbegin :: "'a Storage \<Rightarrow> list_iterator" where
  "Storage_cbegin s = const_iterator (begin_ptr s)"

definition Storage_cend :: "'a Storage \<Rightarrow> list_iterator" where
  "Storage_cend s = const_iterator (end_ptr s)"

definition Storage_rbegin :: "'a Storage \<Rightarrow> list_iterator" where
  "Storage_rbegin s = reverse_iterator (end_ptr s)"

definition Storage_rend :: "'a Storage \<Rightarrow> list_iterator" where
  "Storage_rend s = reverse_iterator (begin_ptr s)"

definition Storage_crbegin :: "'a Storage \<Rightarrow> list_iterator" where
  "Storage_crbegin s = const_reverse_iterator (end_ptr s)"

definition Storage_crend :: "'a Storage \<Rightarrow> list_iterator" where
  "Storage_crend s = const_reverse_iterator (begin_ptr s)"

definition Storage_size :: "'a Storage \<Rightarrow> nat" where
  "Storage_size s = length (nodes s)"

text \<open>
  Forward iteration, \<^verbatim>\<open>for (it = begin(); it != end(); ++it) visit(*it);\<close>, collecting the
  visited values. \<open>walk\<close> is the loop from position \<open>p\<close> with a bound on its rounds:
  \<open>None\<close> when the bound is used up, otherwise the values, or undefined behaviour when
  \<open>*it\<close> or \<open>++it\<close> is applied to something that is no node of the list.
  \<open>traverse\<close> starts at \<open>begin()\<close> with one round per node and one for the final test.
\<close>

fun walk :: "nat \<Rightarrow> 'a Storage \<Rightarrow> node_ptr \<Rightarrow> (error + 'a list) option" where
  "walk 0 s p = None"
| "walk (Suc k) s p =
     (if p = end_ptr s then Some (Inr [])
      else case p of
        Node a \<Rightarrow>
          (case (node_value (nodes s) a, node_next (self s) (nodes s) a) of
             (Some v, Some p') \<Rightarrow>
               (case walk k s p' of
                  Some (Inr vs) \<Rightarrow> Some (Inr (v # vs))
                | r \<Rightarrow> r)
           | _ \<Rightarrow> Some (Inl undefined_behaviour))
      | _ \<Rightarrow> Some (Inl undefined_behaviour))"

definition traverse :: "'a Storage \<Rightarrow> (error + 'a list) option" where
  "traverse s = walk (Suc (Storage_size s)) s (begin_ptr s)"

text \<open>
  \<open>Storage::emplace\<close>: \<open>container::emplace(end(), val)\<close> links a new node before the
  sentinel. The node's address \<open>a\<close> is the allocator's answer, an input of the model.
\<close>

definition Storage_emplace :: "'a Storage \<Rightarrow> nat \<Rightarrow> 'a \<Rightarrow> 'a Storage \<times> ObjectPointer" where
  "Storage_emplace s a val =
     (s\<lparr>nodes := nodes s @ [(a, val)]\<rparr>, \<lparr>it = Node a, cont = Some (self s)\<rparr>)"

text \<open>\<open>std::list::erase(pos)\<close> unlinks the one node \<open>pos\<close> points to.\<close>

fun unlink :: "nat \<Rightarrow> (nat \<times> 'a) list \<Rightarrow> (nat \<times> 'a) list" where
  "unlink a [] = []"
| "unlink a ((b, v) # ns) = (if a = b then ns else (b, v) # unlink a ns)"

definition addresses :: "'a Storage \<Rightarrow> nat list" where
  "addresses s = map fst (nodes s)"

text \<open>
  \<open>Storage::erase\<close>: erases the node at \<open>ptr.it\<close> and resets the caller's pointer to
  \<open>ObjectPointer(this, end())\<close>. An iterator that is not a node of this list is outside
  the contract of \<open>std::list::erase\<close>.
\<close>

definition Storage_erase :: "'a Storage \<Rightarrow> ObjectPointer \<Rightarrow> error + 'a Storage \<times> ObjectPointer" where
  "Storage_erase s ptr =
     (case it ptr of
        Node a \<Rightarrow>
          if a \<in> set (addresses s)
          then Inr (s\<lparr>nodes := unlink a (nodes s)\<rparr>, \<lparr>it = end_ptr s, cont = Some (self s)\<rparr>)
          else Inl undefined_behaviour
      | Null \<Rightarrow> Inl undefined_behaviour
      | Sentinel c \<Rightarrow> Inl undefined_behaviour)"

text \<open>\<open>ObjectPointer::operator==\<close> and \<open>ObjectPointer::operator bool\<close>.\<close>

definition ObjectPointer_eq :: "ObjectPointer \<Rightarrow> ObjectPointer \<Rightarrow> bool" where
  "ObjectPointer_eq p other = (it p = it other)"

definition ObjectPointer_bool :: "ObjectPointer \<Rightarrow> bool" where
  "ObjectPointer_bool p = (case cont p of None \<Rightarrow> False | Some c \<Rightarrow> it p \<noteq> Sentinel c)"


text \<open>
  A client of one \<open>Storage\<close> is a sequence of calls. An \<open>Emplace\<close> carries the address the
  allocator returns for the new node and the constructed value, an \<open>Erase\<close> the handle it
  is called with.
\<close>

datatype 'a operation = Emplace nat 'a | Erase ObjectPointer

fun run :: "'a Storage \<Rightarrow> 'a operation list \<Rightarrow> error + 'a Storage" where
  "run s [] = Inr s"
| "run s (Emplace a val # ops) = run (fst (Storage_emplace s a val)) ops"
| "run s (Erase p # ops) =
     (case Storage_erase s p of Inl e \<Rightarrow> Inl e | Inr (s', p') \<Rightarrow> run s' ops)"

text \<open>
  A handle is valid for a storage when it names that storage and points to one of its
  live nodes. A sequence is permitted when the allocator never returns the address of a
  live node and every erase is called with a handle valid at that moment.
\<close>

definition valid_for :: "'a Storage \<Rightarrow> ObjectPointer \<Rightarrow> bool" where
  "valid_for s p = (cont p = Some (self s) \<and> (\<exists>a \<in> set (addresses s). it p = Node a))"

fun permitted :: "'a Storage \<Rightarrow> 'a operation list \<Rightarrow> bool" where
  "permitted s [] = True"
| "permitted s (Emplace a val # ops) =
     (a \<notin> set (addresses s) \<and> permitted (fst (Storage_emplace s a val)) ops)"
| "permitted s (Erase p # ops) =
     (valid_for s p \<and>
      (case Storage_erase s p of Inl e \<Rightarrow> False | Inr (s', p') \<Rightarrow> permitted s' ops))"

fun emplace_calls :: "'a operation list \<Rightarrow> nat" where
  "emplace_calls [] = 0"
| "emplace_calls (Emplace a val # ops) = Suc (emplace_calls ops)"
| "emplace_calls (Erase p # ops) = emplace_calls ops"

fun erase_calls :: "'a operation list \<Rightarrow> nat" where
  "erase_calls [] = 0"
| "erase_calls (Emplace a val # ops) = erase_calls ops"
| "erase_calls (Erase p # ops) = Suc (erase_calls ops)"

text \<open>
  The specification's reading of a call sequence, without the list: an emplaced object
  is still live at the end when no later erase is called with a handle to its node, and
  the live objects are listed in the order of their emplace calls.
\<close>

fun erased_in :: "nat \<Rightarrow> 'a operation list \<Rightarrow> bool" where
  "erased_in a [] = False"
| "erased_in a (Emplace b val # ops) = erased_in a ops"
| "erased_in a (Erase p # ops) = (it p = Node a \<or> erased_in a ops)"

fun spec_live_objects :: "'a operation list \<Rightarrow> 'a list" where
  "spec_live_objects [] = []"
| "spec_live_objects (Emplace a val # ops) =
     (if erased_in a ops then spec_live_objects ops else val # spec_live_objects ops)"
| "spec_live_objects (Erase p # ops) = spec_live_objects ops"


section \<open>Storage.hpp: HeterogeneousStorage\<close>

text \<open>
  \<open>HeterogeneousStorage<Ts...>\<close>: the parameter pack and the array \<open>containers\<close>, whose
  elements are variants over the typed storages; a variant is the name of its active
  alternative and that alternative's value. The constructor fills element \<open>i\<close> with an
  empty storage of the \<open>i\<close>-th type; the elements lie one after another from the
  object's address \<open>c\<close>.
\<close>

record ('ty, 'a) HeterogeneousStorage =
  pack :: "'ty list"
  containers :: "('ty \<times> 'a Storage) list"

definition HeterogeneousStorage_new :: "nat \<Rightarrow> 'ty list \<Rightarrow> ('ty, 'a) HeterogeneousStorage" where
  "HeterogeneousStorage_new c pk =
     \<lparr>pack = pk, containers = map (\<lambda>(i, T). (T, Storage_new (c + i))) (enumerate 0 pk)\<rparr>"

text \<open>
  \<open>Get<ObjT>()\<close> returns a reference to the storage inside \<open>containers[idx]\<close>, with
  \<open>idx = index_of<ObjT>\<close> a compile-time constant; \<open>std::get\<close> throws when the element
  holds another alternative, and \<open>Get\<close> turns that into a \<open>std::runtime_error\<close>.
  \<open>Get_slot\<close> is the element the reference points into, \<open>Get\<close> the value read through
  it, \<open>put_slot\<close> a write through it. A \<open>std::array\<close> of \<open>size\<close> elements has an
  element at every index of the table, so a shorter \<open>containers\<close> is no value of the type.
\<close>

definition Get_slot :: "('ty, 'a) HeterogeneousStorage \<Rightarrow> 'ty \<Rightarrow> error + nat" where
  "Get_slot hs ObjT =
     (case index_of (pack hs) ObjT of
        None \<Rightarrow> Inl ill_formed
      | Some idx \<Rightarrow>
          if idx < length (containers hs)
          then (if fst (containers hs ! idx) = ObjT then Inr idx
                else Inl (runtime_error ''Type doesn't stored in this storage''))
          else Inl ill_formed)"

definition Get :: "('ty, 'a) HeterogeneousStorage \<Rightarrow> 'ty \<Rightarrow> error + 'a Storage" where
  "Get hs ObjT =
     (case Get_slot hs ObjT of Inl e \<Rightarrow> Inl e | Inr idx \<Rightarrow> Inr (snd (containers hs ! idx)))"

definition put_slot ::
  "('ty, 'a) HeterogeneousStorage \<Rightarrow> nat \<Rightarrow> 'a Storage \<Rightarrow> ('ty, 'a) HeterogeneousStorage" where
  "put_slot hs idx s = hs\<lparr>containers := (containers hs)[idx := (fst (containers hs ! idx), s)]\<rparr>"

definition HeterogeneousStorage_emplace ::
  "('ty, 'a) HeterogeneousStorage \<Rightarrow> 'ty \<Rightarrow> nat \<Rightarrow> 'a
     \<Rightarrow> error + ('ty, 'a) HeterogeneousStorage \<times> ObjectPointer" where
  "HeterogeneousStorage_emplace hs ObjT a val =
     (case Get_slot hs ObjT of
        Inl e \<Rightarrow> Inl e
      | Inr idx \<Rightarrow>
          (case Storage_emplace (snd (containers hs ! idx)) a val of
             (s', p) \<Rightarrow> Inr (put_slot hs idx s', p)))"

definition HeterogeneousStorage_erase ::
  "('ty, 'a) HeterogeneousStorage \<Rightarrow> 'ty \<Rightarrow> ObjectPointer
     \<Rightarrow> error + ('ty, 'a) HeterogeneousStorage \<times> ObjectPointer" where
  "HeterogeneousStorage_erase hs ObjT p =
     (case Get_slot hs ObjT of
        Inl e \<Rightarrow> Inl e
      | Inr idx \<Rightarrow>
          (case Storage_erase (snd (containers hs ! idx)) p of
             Inl e \<Rightarrow> Inl e
           | Inr (s', p') \<Rightarrow> Inr (put_slot hs idx s', p')))"

text \<open>
  The per-type begin/end family is declared \<open>noexcept\<close>: an exception that leaves
  \<open>Get\<close> ends the program in \<open>std::terminate\<close>.
\<close>

fun noexcept :: "error + 'b \<Rightarrow> error + 'b" where
  "noexcept (Inl (runtime_error m)) = Inl terminate"
| "noexcept (Inl bad_variant_access) = Inl terminate"
| "noexcept r = r"

definition through :: "('a Storage \<Rightarrow> 'b) \<Rightarrow> error + 'a Storage \<Rightarrow> error + 'b" where
  "through f r = (case r of Inl e \<Rightarrow> Inl e | Inr s \<Rightarrow> Inr (f s))"

definition HeterogeneousStorage_begin ::
  "('ty, 'a) HeterogeneousStorage \<Rightarrow> 'ty \<Rightarrow> error + list_iterator" where
  "HeterogeneousStorage_begin hs ObjT = noexcept (through Storage_begin (Get hs ObjT))"

definition HeterogeneousStorage_end ::
  "('ty, 'a) HeterogeneousStorage \<Rightarrow> 'ty \<Rightarrow> error + list_iterator" where
  "HeterogeneousStorage_end hs ObjT = noexcept (through Storage_end (Get hs ObjT))"

definition HeterogeneousStorage_cbegin ::
  "('ty, 'a) HeterogeneousStorage \<Rightarrow> 'ty \<Rightarrow> error + list_iterator" where
  "HeterogeneousStorage_cbegin hs ObjT = noexcept (through Storage_cbegin (Get hs ObjT))"

definition HeterogeneousStorage_cend ::
  "('ty, 'a) HeterogeneousStorage \<Rightarrow> 'ty \<Rightarrow> error + list_iterator" where
  "HeterogeneousStorage_cend hs ObjT = noexcept (through Storage_cend (Get hs ObjT))"

definition HeterogeneousStorage_rbegin ::
  "('ty, 'a) HeterogeneousStorage \<Rightarrow> 'ty \<Rightarrow> error + list_iterator" where
  "HeterogeneousStorage_rbegin hs ObjT = noexcept (through Storage_rbegin (Get hs ObjT))"

definition HeterogeneousStorage_rend ::
  "('ty, 'a) HeterogeneousStorage \<Rightarrow> 'ty \<Rightarrow> error + list_iterator" where
  "HeterogeneousStorage_rend hs ObjT = noexcept (through Storage_rend (Get hs ObjT))"

definition HeterogeneousStorage_crbegin ::
  "('ty, 'a) HeterogeneousStorage \<Rightarrow> 'ty \<Rightarrow> error + list_iterator" where
  "HeterogeneousStorage_crbegin hs ObjT = noexcept (through Storage_crbegin (Get hs ObjT))"

definition HeterogeneousStorage_crend ::
  "('ty, 'a) HeterogeneousStorage \<Rightarrow> 'ty \<Rightarrow> error + list_iterator" where
  "HeterogeneousStorage_crend hs ObjT = noexcept (through Storage_crend (Get hs ObjT))"


section \<open>Storage.hpp: TypedView\<close>

text \<open>
  \<open>TypedView<ObjT, HStorageT>\<close> holds a reference to a heterogeneous storage and nothing
  else; each member reads the referenced object, here the first argument, and is
  \<open>noexcept\<close>. Each definition calls the accessor that the source line calls.
\<close>

definition TypedView_begin ::
  "('ty, 'a) HeterogeneousStorage \<Rightarrow> 'ty \<Rightarrow> error + list_iterator" where
  "TypedView_begin storage ObjT = noexcept (HeterogeneousStorage_begin storage ObjT)"

definition TypedView_end ::
  "('ty, 'a) HeterogeneousStorage \<Rightarrow> 'ty \<Rightarrow> error + list_iterator" where
  "TypedView_end storage ObjT = noexcept (HeterogeneousStorage_end storage ObjT)"

definition TypedView_cbegin ::
  "('ty, 'a) HeterogeneousStorage \<Rightarrow> 'ty \<Rightarrow> error + list_iterator" where
  "TypedView_cbegin storage ObjT = noexcept (HeterogeneousStorage_cbegin storage ObjT)"

definition TypedView_cend ::
  "('ty, 'a) HeterogeneousStorage \<Rightarrow> 'ty \<Rightarrow> error + list_iterator" where
  "TypedView_cend storage ObjT = noexcept (HeterogeneousStorage_cend storage ObjT)"

definition TypedView_rbegin ::
  "('ty, 'a) HeterogeneousStorage \<Rightarrow> 'ty \<Rightarrow> error + list_iterator" where
  "TypedView_rbegin storage ObjT = noexcept (HeterogeneousStorage_rbegin storage ObjT)"

definition TypedView_rend ::
  "('ty, 'a) HeterogeneousStorage \<Rightarrow> 'ty \<Rightarrow> error + list_iterator" where
  "TypedView_rend storage ObjT = noexcept (HeterogeneousStorage_rend storage ObjT)"

definition TypedView_crbegin ::
  "('ty, 'a) HeterogeneousStorage \<Rightarrow> 'ty \<Rightarrow> error + list_iterator" where
  "TypedView_crbegin storage ObjT = noexcept (HeterogeneousStorage_crbegin storage ObjT)"

definition TypedView_crend ::
  "('ty, 'a) HeterogeneousStorage \<Rightarrow> 'ty \<Rightarrow> error + list_iterator" where
  "TypedView_crend storage ObjT = noexcept (HeterogeneousStorage_rend storage ObjT)"


section \<open>Storage.hpp: GenericObjectPointer\<close>

text \<open>
  The only member of \<open>GenericObjectPointer\<close> is \<open>std::variant<ObjPtr<Ts>...> ptr\<close>: it
  holds the typed pointer of one of the types, or nothing (valueless by exception).
  \<open>std::get\<close> throws \<open>std::bad_variant_access\<close> as the library says.
\<close>

datatype 'ty variant = valueless | holding 'ty ObjectPointer

record 'ty GenericObjectPointer =
  ptr :: "'ty variant"

definition std_get :: "'ty variant \<Rightarrow> 'ty \<Rightarrow> error + ObjectPointer" where
  "std_get v ObjT =
     (case v of
        valueless \<Rightarrow> Inl bad_variant_access
      | holding T p \<Rightarrow> if T = ObjT then Inr p else Inl bad_variant_access)"

text \<open>The converting constructor from a typed pointer of type \<open>ObjT\<close>.\<close>

definition GenericObjectPointer_from :: "'ty \<Rightarrow> ObjectPointer \<Rightarrow> 'ty GenericObjectPointer" where
  "GenericObjectPointer_from ObjT p = \<lparr>ptr = holding ObjT p\<rparr>"

text \<open>
  The conversion operator to a typed pointer: \<open>std::get\<close>, with
  \<open>std::bad_variant_access\<close> caught and a \<open>std::runtime_error\<close> thrown in its place. It is
  a \<open>const\<close> member: it reads the generic pointer and has no successor state.
\<close>

definition GenericObjectPointer_cast :: "'ty GenericObjectPointer \<Rightarrow> 'ty \<Rightarrow> error + ObjectPointer" where
  "GenericObjectPointer_cast g ObjT =
     (case std_get (ptr g) ObjT of
        Inl e \<Rightarrow>
          if e = bad_variant_access
          then Inl (runtime_error ''Type doesn't stored in this storage'')
          else Inl e
      | Inr p \<Rightarrow> Inr p)"

text \<open>
  \<open>operator bool\<close>: the body is the one statement
  \<^verbatim>\<open>return ptr.valueless_by_exception && std::visit(ptr, [](auto&& ptr) { return ptr.operator bool(); });\<close>
  Its left operand names the member function \<open>valueless_by_exception\<close> of the variant
  without calling it, which is no expression with a value; its right operand hands
  \<open>std::visit\<close> the variant where the visitor belongs and the lambda where the variants
  belong. The operator is a member of a class template, so the compiler meets both when a
  program first converts a generic pointer to \<open>bool\<close>, and rejects that program: the
  conversion has no value for any generic pointer.
\<close>

definition GenericObjectPointer_bool :: "'ty GenericObjectPointer \<Rightarrow> error + bool" where
  "GenericObjectPointer_bool g = Inl ill_formed"

text \<open>
  \<open>void erase(GenericObjectPointer&& ptr) { erase(ptr); }\<close>: the body passes the
  parameter on to \<open>erase\<close>. Inside the body \<open>ptr\<close> is an lvalue. The overload
  \<open>erase(GenericObjectPointer&&)\<close> takes an rvalue reference, which does not bind to an
  lvalue of its own type; the overload \<open>erase<ObjT>(ObjPtr<ObjT>&&)\<close> names \<open>ObjT\<close> only
  inside a nested type, from which it cannot be deduced, and the call names none. The
  call has no viable overload. The function is a member of a class template, so the
  compiler meets the call when a program first erases through a generic pointer, and
  rejects that program: nothing is erased and the storage has no successor state.
\<close>

definition HeterogeneousStorage_erase_generic ::
  "('ty, 'a) HeterogeneousStorage \<Rightarrow> 'ty GenericObjectPointer
     \<Rightarrow> error + ('ty, 'a) HeterogeneousStorage \<times> 'ty GenericObjectPointer" where
  "HeterogeneousStorage_erase_generic hs g = Inl ill_formed"


section \<open>The type table is a bijection\<close>

lemma row_index_of_sound:
  "type_table_row_index_of Index Ts U = Some i \<Longrightarrow>
     Index \<le> i \<and> i - Index < length Ts \<and> row_indexer Ts (i - Index) = Some U"
proof (induction Index Ts U arbitrary: i rule: type_table_row_index_of.induct)
  case (1 Index U)
  then show ?case by simp
next
  case (2 Index T U)
  then show ?case by (simp split: if_splits)
next
  case (3 Index T T' Ts U)
  show ?case
  proof (cases "U = T")
    case True
    with 3 show ?thesis by simp
  next
    case False
    with 3 have r: "type_table_row_index_of (Index + 1) (T' # Ts) U = Some i" by simp
    from 3(1)[OF False r] have "Index + 1 \<le> i" "i - (Index + 1) < length (T' # Ts)"
      "row_indexer (T' # Ts) (i - (Index + 1)) = Some U" by simp_all
    moreover from \<open>Index + 1 \<le> i\<close> have "i - Index = Suc (i - (Index + 1))" by simp
    ultimately show ?thesis by simp
  qed
qed

lemma row_index_of_complete:
  "U \<in> set Ts \<Longrightarrow> \<exists>i. type_table_row_index_of Index Ts U = Some i"
  by (induction Index Ts U rule: type_table_row_index_of.induct) auto

lemma row_indexer_nth: "i < length Ts \<Longrightarrow> row_indexer Ts i = Some (Ts ! i)"
proof (induction Ts i rule: row_indexer.induct)
  case (1 T Ts)
  then show ?case by simp
next
  case (2 T Ts idx)
  then show ?case by simp
next
  case (3 idx)
  then show ?case by simp
qed

lemma row_indexer_Some: "row_indexer Ts i = Some T \<Longrightarrow> i < length Ts \<and> Ts ! i = T"
  by (induction Ts i rule: row_indexer.induct) auto

text \<open>
  C7. Over pairwise-distinct types the table is a bijection between the registered types
  and the indices below its size: every registered type has an index below the size whose
  \<open>type_of\<close> is that type, and every index below the size has a registered type whose
  \<open>index_of\<close> is that index.
\<close>

theorem type_table_bijection:
  assumes "distinct Ts"
  shows "(\<forall>T \<in> set Ts. \<exists>i < type_table_size Ts. index_of Ts T = Some i \<and> type_of Ts i = Some T)
       \<and> (\<forall>i < type_table_size Ts. \<exists>T \<in> set Ts. type_of Ts i = Some T \<and> index_of Ts T = Some i)"
proof (intro conjI ballI allI impI)
  fix T assume "T \<in> set Ts"
  then obtain i where i: "index_of Ts T = Some i"
    unfolding index_of_def using row_index_of_complete by fastforce
  from row_index_of_sound[OF i[unfolded index_of_def]]
  have "i < length Ts" "row_indexer Ts i = Some T" by simp_all
  with i show "\<exists>i < type_table_size Ts. index_of Ts T = Some i \<and> type_of Ts i = Some T"
    by (auto simp: type_table_size_def type_of_def)
next
  fix i assume "i < type_table_size Ts"
  then have len: "i < length Ts" by (simp add: type_table_size_def)
  then have t: "type_of Ts i = Some (Ts ! i)" by (simp add: type_of_def row_indexer_nth)
  from len have mem: "Ts ! i \<in> set Ts" by simp
  then obtain j where j: "index_of Ts (Ts ! i) = Some j"
    unfolding index_of_def using row_index_of_complete by fastforce
  from row_index_of_sound[OF j[unfolded index_of_def]]
  have "row_indexer Ts j = Some (Ts ! i)" by simp
  then have "j < length Ts" "Ts ! j = Ts ! i" using row_indexer_Some by fastforce+
  with assms len have "j = i" by (simp add: nth_eq_iff_index_eq)
  with t j mem show "\<exists>T \<in> set Ts. type_of Ts i = Some T \<and> index_of Ts T = Some i" by blast
qed

theorem type_table_bijection_witness:
  "distinct [''int'', ''float'', ''string'']
   \<and> type_table_size [''int'', ''float'', ''string''] = 3
   \<and> index_of [''int'', ''float'', ''string''] ''int'' = Some 0
   \<and> index_of [''int'', ''float'', ''string''] ''float'' = Some 1
   \<and> index_of [''int'', ''float'', ''string''] ''string'' = Some 2
   \<and> type_of [''int'', ''float'', ''string''] 0 = Some ''int''
   \<and> type_of [''int'', ''float'', ''string''] 1 = Some ''float''
   \<and> type_of [''int'', ''float'', ''string''] 2 = Some ''string''"
  using type_table_bijection [of "[''int'', ''float'', ''string'']"]
  by (simp add: index_of_def type_of_def type_table_size_def numeral_2_eq_2)


section \<open>Handle equality\<close>

text \<open>
  C10. Two typed handles compare equal exactly when their stored iterators are equal; the
  owning storage recorded in \<open>cont\<close> takes no part, so handles with one iterator and two
  different owners compare equal.
\<close>

theorem ObjectPointer_eq_iterators_only:
  "ObjectPointer_eq h1 h2 = (it h1 = it h2)
   \<and> ObjectPointer_eq \<lparr>it = i, cont = c1\<rparr> \<lparr>it = i, cont = c2\<rparr>"
  by (simp add: ObjectPointer_eq_def)


section \<open>Single-type storage: size and iteration order\<close>

lemma unlink_length:
  "a \<in> set (map fst ns) \<Longrightarrow> Suc (length (unlink a ns)) = length ns"
  by (induction ns) force+

lemma unlink_distinct:
  "distinct (map fst ns) \<Longrightarrow> unlink a ns = filter (\<lambda>n. fst n \<noteq> a) ns"
proof (induction ns)
  case Nil
  then show ?case by simp
next
  case (Cons n ns)
  obtain b v where n: "n = (b, v)" by (cases n)
  show ?case
  proof (cases "a = b")
    case True
    with Cons.prems n have "a \<notin> fst ` set ns" by simp
    then have "filter (\<lambda>n. fst n \<noteq> a) ns = ns" by (auto simp: filter_id_conv)
    with True n show ?thesis by simp
  next
    case False
    with Cons n show ?thesis by simp
  qed
qed

lemma Storage_emplace_size:
  "Storage_size (fst (Storage_emplace s a val)) = Suc (Storage_size s)"
  by (simp add: Storage_emplace_def Storage_size_def)

lemma Storage_erase_size:
  "Storage_erase s p = Inr (s', p') \<Longrightarrow> Suc (Storage_size s') = Storage_size s"
  by (auto simp: Storage_erase_def Storage_size_def addresses_def
           simp del: set_map dest: unlink_length split: node_ptr.splits if_splits)

text \<open>
  C5. After any permitted sequence of emplace and erase calls on a storage, every call
  has returned and the size is the size before, plus the number of emplace calls, minus
  the number of erase calls. For a sequence of one call this is: an emplace adds one, an
  erase takes one away; for a storage that starts empty the size is the difference of the
  two counts.
\<close>

theorem size_counts_calls:
  assumes "permitted s ops"
  shows "\<exists>s'. run s ops = Inr s'
           \<and> int (Storage_size s')
               = int (Storage_size s) + int (emplace_calls ops) - int (erase_calls ops)"
  using assms
proof (induction s ops rule: run.induct)
  case (1 s)
  then show ?case by simp
next
  case (2 s a val ops)
  then obtain s' where "run (fst (Storage_emplace s a val)) ops = Inr s'"
    "int (Storage_size s') = int (Storage_size (fst (Storage_emplace s a val)))
        + int (emplace_calls ops) - int (erase_calls ops)" by auto
  then show ?case by (simp add: Storage_emplace_size)
next
  case (3 s p ops)
  from "3.prems" obtain s1 p1 where e: "Storage_erase s p = Inr (s1, p1)"
    and perm: "permitted s1 ops"
    by (auto split: sum.splits)
  from "3.IH"[OF e refl perm] obtain s' where "run s1 ops = Inr s'"
    "int (Storage_size s') = int (Storage_size s1) + int (emplace_calls ops) - int (erase_calls ops)"
    by auto
  with e Storage_erase_size[OF e] show ?case by simp
qed

theorem size_counts_calls_witness:
  "permitted (Storage_new 0)
     [Emplace 10 (1::int), Emplace 20 2, Emplace 30 3, Erase \<lparr>it = Node 20, cont = Some 0\<rparr>]
   \<and> (\<exists>s'. run (Storage_new 0)
              [Emplace 10 (1::int), Emplace 20 2, Emplace 30 3,
               Erase \<lparr>it = Node 20, cont = Some 0\<rparr>]
            = Inr s'
          \<and> int (Storage_size s') = 0 + 3 - 1)"
proof -
  have h: "permitted (Storage_new 0)
     [Emplace 10 (1::int), Emplace 20 2, Emplace 30 3, Erase \<lparr>it = Node 20, cont = Some 0\<rparr>]"
    by (simp add: Storage_new_def Storage_emplace_def Storage_erase_def addresses_def valid_for_def)
  from size_counts_calls[OF h] h show ?thesis
    by (simp add: Storage_new_def Storage_size_def)
qed

text \<open>The loop over a list whose node addresses are distinct visits the nodes in list order.\<close>

lemma node_value_append:
  "a \<notin> set (map fst pre) \<Longrightarrow> node_value (pre @ (a, v) # suf) a = Some v"
  by (induction pre) auto

lemma node_next_append:
  "a \<notin> set (map fst pre) \<Longrightarrow> node_next c (pre @ (a, v) # suf) a = Some (first_ptr c suf)"
  by (induction pre) auto

lemma walk_suffix:
  assumes "nodes s = pre @ suf" and "distinct (map fst (nodes s))"
  shows "walk (Suc (length suf)) s (first_ptr (self s) suf) = Some (Inr (map snd suf))"
  using assms
proof (induction suf arbitrary: pre)
  case Nil
  then show ?case by (simp add: end_ptr_def)
next
  case (Cons n suf)
  obtain a v where n: "n = (a, v)" by (cases n)
  from Cons.prems n have fresh: "a \<notin> set (map fst pre)" by auto
  from Cons.prems n have split: "nodes s = (pre @ [(a, v)]) @ suf" by simp
  from Cons.IH[OF split Cons.prems(2)]
  have ih: "walk (Suc (length suf)) s (first_ptr (self s) suf) = Some (Inr (map snd suf))" .
  from Cons.prems(1) n fresh have
    "node_value (nodes s) a = Some v"
    "node_next (self s) (nodes s) a = Some (first_ptr (self s) suf)"
    by (simp_all add: node_value_append node_next_append)
  with ih n show ?case by (simp add: end_ptr_def)
qed

lemma traverse_nodes:
  "distinct (addresses s) \<Longrightarrow> traverse s = Some (Inr (map snd (nodes s)))"
  using walk_suffix[of s "[]" "nodes s"]
  by (simp add: traverse_def Storage_size_def begin_ptr_def addresses_def)

lemma run_nodes:
  assumes "distinct (addresses s)" and "permitted s ops"
  shows "\<exists>s'. run s ops = Inr s' \<and> distinct (addresses s')
           \<and> map snd (nodes s')
               = map snd (filter (\<lambda>n. \<not> erased_in (fst n) ops) (nodes s)) @ spec_live_objects ops"
  using assms
proof (induction s ops rule: run.induct)
  case (1 s)
  then show ?case by simp
next
  case (2 s a val ops)
  let ?s1 = "fst (Storage_emplace s a val)"
  from "2.prems" have d: "distinct (addresses ?s1)" and perm: "permitted ?s1 ops"
    by (simp_all add: Storage_emplace_def addresses_def)
  from "2.IH"[OF d perm] obtain s' where r: "run ?s1 ops = Inr s'" and d': "distinct (addresses s')"
    and t: "map snd (nodes s')
      = map snd (filter (\<lambda>n. \<not> erased_in (fst n) ops) (nodes ?s1)) @ spec_live_objects ops"
    by auto
  from t have "map snd (nodes s')
      = map snd (filter (\<lambda>n. \<not> erased_in (fst n) (Emplace a val # ops)) (nodes s))
        @ spec_live_objects (Emplace a val # ops)"
    by (simp add: Storage_emplace_def)
  with r d' show ?case by simp
next
  case (3 s p ops)
  from "3.prems" obtain s1 p1 where e: "Storage_erase s p = Inr (s1, p1)"
    and perm: "permitted s1 ops"
    by (auto split: sum.splits)
  from e obtain a where a: "it p = Node a" "a \<in> set (addresses s)" "nodes s1 = unlink a (nodes s)"
    by (auto simp: Storage_erase_def split: node_ptr.splits if_splits)
  from "3.prems"(1) have dn: "distinct (map fst (nodes s))" by (simp add: addresses_def)
  from a(3) unlink_distinct[OF dn] have n1: "nodes s1 = filter (\<lambda>n. fst n \<noteq> a) (nodes s)"
    by simp
  with dn have d: "distinct (addresses s1)" by (simp add: addresses_def distinct_map_filter)
  from "3.IH"[OF e refl d perm] obtain s' where r: "run s1 ops = Inr s'"
    and d': "distinct (addresses s')"
    and t: "map snd (nodes s')
      = map snd (filter (\<lambda>n. \<not> erased_in (fst n) ops) (nodes s1)) @ spec_live_objects ops"
    by auto
  have "filter (\<lambda>n. \<not> erased_in (fst n) ops) (nodes s1)
      = filter (\<lambda>n. \<not> erased_in (fst n) (Erase p # ops)) (nodes s)"
    using a(1) n1 by (auto simp: conj_commute intro: filter_cong)
  with t r e d' show ?case by simp
qed

text \<open>
  C6. After any permitted sequence of emplace and erase calls on a storage that starts
  empty, every call has returned, and forward iteration from \<open>begin()\<close> to \<open>end()\<close>
  finishes and yields exactly the objects whose node no later erase was called on, in
  the order of their emplace calls. The scenario of the claim (emplace 1, 2, 3, erase the
  handle that the emplace of 2 returned: iteration yields 1 then 3, the size is 2) is the
  instance proved right after the theorem.
\<close>

theorem iteration_is_live_in_emplace_order:
  assumes "permitted (Storage_new c) ops"
  shows "\<exists>s'. run (Storage_new c) ops = Inr s' \<and> traverse s' = Some (Inr (spec_live_objects ops))"
proof -
  have "distinct (addresses (Storage_new c :: 'a Storage))"
    by (simp add: Storage_new_def addresses_def)
  from run_nodes[OF this assms] obtain s' where "run (Storage_new c) ops = Inr s'"
    "distinct (addresses s')" "map snd (nodes s') = spec_live_objects ops"
    by (auto simp: Storage_new_def)
  then show ?thesis by (auto simp: traverse_nodes)
qed

theorem iteration_is_live_in_emplace_order_witness:
  "permitted (Storage_new 0)
     [Emplace 10 (1::int), Emplace 20 2, Emplace 30 3,
      Erase (snd (Storage_emplace (fst (Storage_emplace (Storage_new 0) 10 1)) 20 2))]
   \<and> (\<exists>s'. run (Storage_new 0)
              [Emplace 10 (1::int), Emplace 20 2, Emplace 30 3,
               Erase (snd (Storage_emplace (fst (Storage_emplace (Storage_new 0) 10 1)) 20 2))]
            = Inr s'
          \<and> traverse s' = Some (Inr [1, 3]) \<and> Storage_size s' = 2)"
proof -
  have h: "permitted (Storage_new 0)
     [Emplace 10 (1::int), Emplace 20 2, Emplace 30 3,
      Erase (snd (Storage_emplace (fst (Storage_emplace (Storage_new 0) 10 1)) 20 2))]"
    by (simp add: Storage_new_def Storage_emplace_def Storage_erase_def addresses_def valid_for_def)
  from iteration_is_live_in_emplace_order[OF h] show ?thesis
    using h
    by (auto simp: Storage_emplace_def Storage_new_def Storage_size_def Storage_erase_def
        addresses_def)
qed


section \<open>Heterogeneous storage: one sub-storage per type\<close>

lemma index_of_injective:
  assumes "index_of pk A = Some i" and "index_of pk B = Some i"
  shows "A = B"
  using row_index_of_sound[OF assms(1)[unfolded index_of_def]]
        row_index_of_sound[OF assms(2)[unfolded index_of_def]]
  by simp

lemma Get_slot_index_of: "Get_slot hs A = Inr idx \<Longrightarrow> index_of (pack hs) A = Some idx"
  by (auto simp: Get_slot_def split: option.splits if_splits)

lemma Get_slot_put_slot:
  assumes "Get_slot hs A = Inr idx" and "A \<noteq> B"
  shows "Get_slot (put_slot hs idx s) B = Get_slot hs B"
proof (cases "index_of (pack hs) B")
  case None
  then show ?thesis by (simp add: Get_slot_def put_slot_def)
next
  case (Some j)
  with Get_slot_index_of[OF assms(1)] assms(2) have "j \<noteq> idx"
    using index_of_injective by fastforce
  with Some show ?thesis by (simp add: Get_slot_def put_slot_def)
qed

lemma Get_put_slot:
  assumes "Get_slot hs A = Inr idx" and "A \<noteq> B"
  shows "Get (put_slot hs idx s) B = Get hs B"
proof (cases "Get_slot hs B")
  case (Inl e)
  with Get_slot_put_slot[OF assms] show ?thesis by (simp add: Get_def)
next
  case (Inr j)
  with Get_slot_index_of[OF assms(1)] Get_slot_index_of[OF Inr] assms(2) have "j \<noteq> idx"
    using index_of_injective by fastforce
  with Inr Get_slot_put_slot[OF assms, of s] show ?thesis
    by (simp add: Get_def put_slot_def)
qed

text \<open>
  C8. For two different types \<open>A\<close> and \<open>B\<close>, an emplace or an erase of type \<open>A\<close> that
  returns leaves what \<open>Get<B>()\<close> yields as it was: the same sub-storage with the same
  nodes in the same order, hence the same size, contents and iteration order.
\<close>

theorem sub_pools_isolated:
  assumes "A \<noteq> B"
  shows "(HeterogeneousStorage_emplace hs A a val = Inr (hs', p) \<longrightarrow> Get hs' B = Get hs B)
       \<and> (HeterogeneousStorage_erase hs A q = Inr (hs'', q') \<longrightarrow> Get hs'' B = Get hs B)"
  using assms
  by (auto simp: HeterogeneousStorage_emplace_def HeterogeneousStorage_erase_def
                 Storage_emplace_def Get_put_slot split: sum.splits)

theorem sub_pools_isolated_witness:
  "''int'' \<noteq> ''string''
   \<and> HeterogeneousStorage_emplace
         \<lparr>pack = [''int'', ''string''],
           containers = [(''int'', \<lparr>self = 100, nodes = []\<rparr>),
                         (''string'', \<lparr>self = 101, nodes = [(20, 7::int)]\<rparr>)]\<rparr>
         ''int'' 10 1
       = Inr (\<lparr>pack = [''int'', ''string''],
               containers = [(''int'', \<lparr>self = 100, nodes = [(10, 1)]\<rparr>),
                             (''string'', \<lparr>self = 101, nodes = [(20, 7)]\<rparr>)]\<rparr>,
              \<lparr>it = Node 10, cont = Some 100\<rparr>)
   \<and> HeterogeneousStorage_erase
         \<lparr>pack = [''int'', ''string''],
           containers = [(''int'', \<lparr>self = 100, nodes = [(10, 1::int)]\<rparr>),
                         (''string'', \<lparr>self = 101, nodes = [(20, 7)]\<rparr>)]\<rparr>
         ''int'' \<lparr>it = Node 10, cont = Some 100\<rparr>
       = Inr (\<lparr>pack = [''int'', ''string''],
               containers = [(''int'', \<lparr>self = 100, nodes = []\<rparr>),
                             (''string'', \<lparr>self = 101, nodes = [(20, 7)]\<rparr>)]\<rparr>,
              \<lparr>it = Sentinel 100, cont = Some 100\<rparr>)
   \<and> Get \<lparr>pack = [''int'', ''string''],
           containers = [(''int'', \<lparr>self = 100, nodes = [(10, 1::int)]\<rparr>),
                         (''string'', \<lparr>self = 101, nodes = [(20, 7)]\<rparr>)]\<rparr> ''string''
       = Inr \<lparr>self = 101, nodes = [(20, 7)]\<rparr>
   \<and> Get \<lparr>pack = [''int'', ''string''],
           containers = [(''int'', \<lparr>self = 100, nodes = []\<rparr>),
                         (''string'', \<lparr>self = 101, nodes = [(20, 7::int)]\<rparr>)]\<rparr> ''string''
       = Inr \<lparr>self = 101, nodes = [(20, 7)]\<rparr>"
proof -
  have ne: "''int'' \<noteq> ''string''" by simp
  have e: "HeterogeneousStorage_emplace
         \<lparr>pack = [''int'', ''string''],
           containers = [(''int'', \<lparr>self = 100, nodes = []\<rparr>),
                         (''string'', \<lparr>self = 101, nodes = [(20, 7::int)]\<rparr>)]\<rparr>
         ''int'' 10 1
       = Inr (\<lparr>pack = [''int'', ''string''],
               containers = [(''int'', \<lparr>self = 100, nodes = [(10, 1)]\<rparr>),
                             (''string'', \<lparr>self = 101, nodes = [(20, 7)]\<rparr>)]\<rparr>,
              \<lparr>it = Node 10, cont = Some 100\<rparr>)"
    by (simp add: HeterogeneousStorage_emplace_def Get_slot_def index_of_def Storage_emplace_def
        put_slot_def)
  have r: "HeterogeneousStorage_erase
         \<lparr>pack = [''int'', ''string''],
           containers = [(''int'', \<lparr>self = 100, nodes = [(10, 1::int)]\<rparr>),
                         (''string'', \<lparr>self = 101, nodes = [(20, 7)]\<rparr>)]\<rparr>
         ''int'' \<lparr>it = Node 10, cont = Some 100\<rparr>
       = Inr (\<lparr>pack = [''int'', ''string''],
               containers = [(''int'', \<lparr>self = 100, nodes = []\<rparr>),
                             (''string'', \<lparr>self = 101, nodes = [(20, 7)]\<rparr>)]\<rparr>,
              \<lparr>it = Sentinel 100, cont = Some 100\<rparr>)"
    by (simp add: HeterogeneousStorage_erase_def Get_slot_def index_of_def Storage_erase_def
        put_slot_def addresses_def end_ptr_def)
  from sub_pools_isolated[OF ne, THEN conjunct1, rule_format, OF e]
       sub_pools_isolated[OF ne, THEN conjunct2, rule_format, OF r]
  show ?thesis using ne e r
    by (simp add: Get_def Get_slot_def index_of_def)
qed


section \<open>Generic pointers\<close>

text \<open>
  C2. Wrapping a valid typed handle of type \<open>T\<close> into a generic pointer and converting
  back to the typed pointer of \<open>T\<close> returns a handle that compares equal to the one
  wrapped.
\<close>

theorem construct_cast_round_trip:
  assumes "ObjectPointer_bool h"
  shows "\<exists>h'. GenericObjectPointer_cast (GenericObjectPointer_from T h) T = Inr h'
           \<and> ObjectPointer_eq h' h"
  by (simp add: GenericObjectPointer_cast_def GenericObjectPointer_from_def std_get_def
      ObjectPointer_eq_def)

theorem construct_cast_round_trip_witness:
  "ObjectPointer_bool (snd (Storage_emplace (Storage_new 0) 10 (1::int)))
   \<and> (\<exists>h'. GenericObjectPointer_cast
              (GenericObjectPointer_from ''int'' (snd (Storage_emplace (Storage_new 0) 10 (1::int))))
              ''int''
            = Inr h'
          \<and> ObjectPointer_eq h' (snd (Storage_emplace (Storage_new 0) 10 (1::int))))"
proof -
  have h: "ObjectPointer_bool (snd (Storage_emplace (Storage_new 0) 10 (1::int)))"
    by (simp add: ObjectPointer_bool_def Storage_emplace_def Storage_new_def)
  from construct_cast_round_trip[OF h, of "''int''"] h show ?thesis by simp
qed

text \<open>
  C3. Converting a generic pointer that wraps a handle of type \<open>T\<close> to the typed pointer
  of another type \<open>U\<close> ends in the \<open>std::runtime_error\<close> of the conversion operator, an
  exception the caller can catch, and returns no handle. The generic pointer is read
  only: the conversion to \<open>T\<close> still returns the wrapped handle.
\<close>

theorem cast_to_other_type_fails:
  assumes "U \<noteq> T"
  shows "GenericObjectPointer_cast (GenericObjectPointer_from T h) U
           = Inl (runtime_error ''Type doesn't stored in this storage'')
       \<and> GenericObjectPointer_cast (GenericObjectPointer_from T h) T = Inr h"
  using assms
  by (simp add: GenericObjectPointer_cast_def GenericObjectPointer_from_def std_get_def)

theorem cast_to_other_type_fails_witness:
  "''int'' \<noteq> ''string''
   \<and> GenericObjectPointer_cast
         (GenericObjectPointer_from ''string'' \<lparr>it = Node 10, cont = Some 0\<rparr>) ''int''
       = Inl (runtime_error ''Type doesn't stored in this storage'')
   \<and> GenericObjectPointer_cast
         (GenericObjectPointer_from ''string'' \<lparr>it = Node 10, cont = Some 0\<rparr>) ''string''
       = Inr \<lparr>it = Node 10, cont = Some 0\<rparr>"
proof -
  have ne: "''int'' \<noteq> ''string''" by simp
  from cast_to_other_type_fails[OF ne] ne show ?thesis by simp
qed

text \<open>
  C1. The validity check of a generic pointer has no value: a program that uses it is
  rejected by the compiler. The handle that an emplace into an empty storage returns is
  valid, and the check of the generic pointer built from it is neither true nor the
  validity of that handle.
\<close>

theorem GenericObjectPointer_bool_ill_formed:
  "GenericObjectPointer_bool g = Inl ill_formed
   \<and> ObjectPointer_bool (snd (Storage_emplace (Storage_new 0) 10 (1::int)))
   \<and> GenericObjectPointer_bool
        (GenericObjectPointer_from ''int'' (snd (Storage_emplace (Storage_new 0) 10 (1::int))))
       \<noteq> Inr (ObjectPointer_bool (snd (Storage_emplace (Storage_new 0) 10 (1::int))))"
  by (simp add: GenericObjectPointer_bool_def ObjectPointer_bool_def Storage_emplace_def
      Storage_new_def)

text \<open>
  C4. The erase that takes a generic pointer has no effect on any storage: a program
  that calls it is rejected by the compiler. Where the typed erase with the wrapped
  handle returns and empties the sub-storage of \<open>int\<close>, the generic erase with the
  generic pointer built from the same handle returns nothing.
\<close>

theorem erase_generic_ill_formed:
  "HeterogeneousStorage_erase_generic hs g = Inl ill_formed
   \<and> HeterogeneousStorage_erase
         \<lparr>pack = [''int'', ''string''],
           containers = [(''int'', \<lparr>self = 100, nodes = [(10, 1::int)]\<rparr>),
                         (''string'', \<lparr>self = 101, nodes = []\<rparr>)]\<rparr>
         ''int'' \<lparr>it = Node 10, cont = Some 100\<rparr>
       = Inr (\<lparr>pack = [''int'', ''string''],
               containers = [(''int'', \<lparr>self = 100, nodes = []\<rparr>),
                             (''string'', \<lparr>self = 101, nodes = []\<rparr>)]\<rparr>,
              \<lparr>it = Sentinel 100, cont = Some 100\<rparr>)
   \<and> HeterogeneousStorage_erase_generic
         \<lparr>pack = [''int'', ''string''],
           containers = [(''int'', \<lparr>self = 100, nodes = [(10, 1::int)]\<rparr>),
                         (''string'', \<lparr>self = 101, nodes = []\<rparr>)]\<rparr>
         (GenericObjectPointer_from ''int'' \<lparr>it = Node 10, cont = Some 100\<rparr>)
       = Inl ill_formed"
  by (simp add: HeterogeneousStorage_erase_generic_def HeterogeneousStorage_erase_def Get_slot_def
      index_of_def Storage_erase_def put_slot_def addresses_def end_ptr_def)


section \<open>Typed views\<close>

lemma noexcept_idem: "noexcept (noexcept r) = noexcept r"
  by (cases r rule: noexcept.cases) simp_all

lemma TypedView_delegates:
  "TypedView_begin storage ObjT = HeterogeneousStorage_begin storage ObjT"
  "TypedView_end storage ObjT = HeterogeneousStorage_end storage ObjT"
  "TypedView_cbegin storage ObjT = HeterogeneousStorage_cbegin storage ObjT"
  "TypedView_cend storage ObjT = HeterogeneousStorage_cend storage ObjT"
  "TypedView_rbegin storage ObjT = HeterogeneousStorage_rbegin storage ObjT"
  "TypedView_rend storage ObjT = HeterogeneousStorage_rend storage ObjT"
  "TypedView_crbegin storage ObjT = HeterogeneousStorage_crbegin storage ObjT"
  by (simp_all add: TypedView_begin_def TypedView_end_def TypedView_cbegin_def TypedView_cend_def
      TypedView_rbegin_def TypedView_rend_def TypedView_crbegin_def
      HeterogeneousStorage_begin_def HeterogeneousStorage_end_def HeterogeneousStorage_cbegin_def
      HeterogeneousStorage_cend_def HeterogeneousStorage_rbegin_def HeterogeneousStorage_rend_def
      HeterogeneousStorage_crbegin_def noexcept_idem)

text \<open>
  C9. Seven members of the view return what the storage's accessor of the same name
  returns (\<open>TypedView_delegates\<close>). The eighth, \<open>crend()\<close>, returns what \<open>rend<T>()\<close>
  returns: on a fresh storage over \<open>int\<close> and \<open>string\<close> that is a \<open>reverse_iterator\<close>,
  where \<open>crend<T>()\<close> returns a \<open>const_reverse_iterator\<close> at the same position.
\<close>

theorem TypedView_crend_returns_rend:
  "TypedView_crend storage ObjT = HeterogeneousStorage_rend storage ObjT
   \<and> TypedView_crend
         (HeterogeneousStorage_new 100 [''int'', ''string''] :: (string, int) HeterogeneousStorage)
         ''int''
       = Inr (reverse_iterator (Sentinel 100))
   \<and> HeterogeneousStorage_crend
         (HeterogeneousStorage_new 100 [''int'', ''string''] :: (string, int) HeterogeneousStorage)
         ''int''
       = Inr (const_reverse_iterator (Sentinel 100))
   \<and> TypedView_crend
         (HeterogeneousStorage_new 100 [''int'', ''string''] :: (string, int) HeterogeneousStorage)
         ''int''
       \<noteq> HeterogeneousStorage_crend (HeterogeneousStorage_new 100 [''int'', ''string'']) ''int''"
  by (simp add: TypedView_crend_def HeterogeneousStorage_rend_def HeterogeneousStorage_crend_def
      noexcept_idem HeterogeneousStorage_new_def Get_def Get_slot_def index_of_def through_def
      Storage_rend_def Storage_crend_def begin_ptr_def Storage_new_def)

end
